theory Spec2Isabelle
  imports Main "HOL-Library.Sublist" "HOL-Library.AList"
begin

section \<open>Strings and paths (the Go standard library calls the program makes)\<close>

text \<open>
  Go strings are byte sequences; \<open>string\<close> is a list of 8-bit characters. All
  patterns the program passes to the functions below are ASCII literals, so the
  byte-wise definitions agree with Go on every input.
\<close>


text \<open>\<^verbatim>\<open>strings.Contains(s, sub)\<close>: \<open>sub\<close> occurs in \<open>s\<close> as a contiguous block.\<close>

fun Contains :: "string \<Rightarrow> string \<Rightarrow> bool" where
  "Contains [] sub = (sub = [])"
| "Contains (c # cs) sub = (prefix sub (c # cs) \<or> Contains cs sub)"

text \<open>
  \<^verbatim>\<open>strings.ReplaceAll(s, old, new)\<close>: the non-overlapping occurrences of
  \<open>old\<close> are replaced from left to right. The program only passes non-empty
  \<open>old\<close>; for an empty \<open>old\<close> Go inserts \<open>new\<close> before every character and
  at the end.
\<close>

function ReplaceAll :: "string \<Rightarrow> string \<Rightarrow> string \<Rightarrow> string" where
  "ReplaceAll s old new =
     (if old = [] then new @ concat (map (\<lambda>c. c # new) s)
      else if s = [] then []
      else if prefix old s then new @ ReplaceAll (drop (length old) s) old new
      else hd s # ReplaceAll (tl s) old new)"
  by pat_completeness auto
termination
  by (relation "measure (\<lambda>(s, old, new). length s)") auto

declare ReplaceAll.simps [simp del]

text \<open>
  \<^verbatim>\<open>strings.Split(s, sep)\<close> for a separator of one byte (the program splits on
  \<^verbatim>\<open>"-"\<close> and on \<^verbatim>\<open>"."\<close> only). The result is never empty.
\<close>

fun Split :: "string \<Rightarrow> char \<Rightarrow> string list" where
  "Split [] sep = [[]]"
| "Split (c # cs) sep =
     (if c = sep then [] # Split cs sep
      else (case Split cs sep of
              [] \<Rightarrow> [[c]]
            | w # ws \<Rightarrow> (c # w) # ws))"

text \<open>\<^verbatim>\<open>strings.Join(elems, sep)\<close>\<close>

fun strJoin :: "string list \<Rightarrow> string \<Rightarrow> string" where
  "strJoin [] sep = []"
| "strJoin [e] sep = e"
| "strJoin (e # es) sep = e @ sep @ strJoin es sep"

text \<open>
  \<^verbatim>\<open>filepath.Clean\<close> on a Unix path: empty and \<^verbatim>\<open>.\<close> elements are dropped, an inner
  \<^verbatim>\<open>..\<close> removes the element before it, a \<^verbatim>\<open>..\<close> at the start of a rooted path is
  dropped, and the empty result is \<^verbatim>\<open>.\<close>. \<open>cleanElems\<close> walks the elements with
  the stack of kept elements (innermost first).
\<close>

fun cleanElems :: "bool \<Rightarrow> string list \<Rightarrow> string list \<Rightarrow> string list" where
  "cleanElems rooted st [] = rev st"
| "cleanElems rooted st (e # es) =
     (if e = [] \<or> e = ''.'' then cleanElems rooted st es
      else if e = ''..'' then
        (case st of
           [] \<Rightarrow> if rooted then cleanElems rooted [] es else cleanElems rooted [e] es
         | el # rest \<Rightarrow>
             if el = ''..'' then cleanElems rooted (e # st) es
             else cleanElems rooted rest es)
      else cleanElems rooted (e # st) es)"

definition Clean :: "string \<Rightarrow> string" where
  "Clean path =
     (if path = [] then ''.''
      else
        (let rooted = (hd path = CHR ''/'');
             out = (if rooted then ''/'' else []) @
                   strJoin (cleanElems rooted [] (Split path (CHR ''/''))) ''/''
         in if out = [] then ''.'' else out))"

text \<open>
  \<^verbatim>\<open>filepath.Join(elem...)\<close>: leading empty elements are ignored, the rest is joined
  with \<^verbatim>\<open>/\<close> and cleaned; no non-empty element gives the empty string.
\<close>

definition Join :: "string list \<Rightarrow> string" where
  "Join elem =
     (case dropWhile (\<lambda>e. e = []) elem of
        [] \<Rightarrow> []
      | es \<Rightarrow> Clean (strJoin es ''/''))"

text \<open>\<^verbatim>\<open>filepath.Dir(path)\<close>: the path up to and including its last \<^verbatim>\<open>/\<close>, cleaned.\<close>

definition Dir :: "string \<Rightarrow> string" where
  "Dir path = Clean (rev (dropWhile (\<lambda>c. c \<noteq> CHR ''/'') (rev path)))"


section \<open>Package naming (pkg/naming/naming.go)\<close>

record Args =
  Prefix :: string
  Source :: string
  Version :: string
  Upstream :: string
  Target :: string
  SourceBaseDir :: string
  BuildBaseDir :: string
  CacheBaseDir :: string
  PackagesBaseDir :: string

text \<open>The Go struct embeds \<open>Args\<close>; here it is the first field.\<close>

record Naming =
  Args :: Args
  Container :: string
  Image :: string
  SourceDir :: string
  SourceParentDir :: string
  BuildDir :: string
  CacheDir :: string
  PackagesDir :: string
  PackagesTargetDir :: string
  PackagesSourceDir :: string
  PackagesVersionDir :: string

definition standardizeVersion :: "string \<Rightarrow> string" where
  "standardizeVersion version =
     (let version = ReplaceAll version ''~'' ''-'';
          version = ReplaceAll version '':'' ''-'';
          version = ReplaceAll version ''+'' ''-''
      in version)"

text \<open>
  \<^verbatim>\<open>strings.Split(target, "-")[0]\<close> cannot panic: the result of a split has at least
  one element.
\<close>

definition standardizeTarget :: "string \<Rightarrow> string \<Rightarrow> string" where
  "standardizeTarget version target =
     (let target = ReplaceAll target ''UNRELEASED'' ''unstable'';
          target = hd (Split target (CHR ''-''));
          target = (if Contains version ''bpo'' then target @ ''-backports'' else target)
      in target)"

definition New :: "Args \<Rightarrow> Naming" where
  "New args0 =
     (let args = args0\<lparr>Target := standardizeTarget (Version args0) (Target args0)\<rparr>;
          version = standardizeVersion (Version args);
          image = Prefix args @ '':'' @ Target args;
          container = Prefix args @ ''_'' @ Target args @ ''_'' @ Source args @ ''_'' @ version
      in \<lparr> Args = args,
           Container = container,
           Image = image,
           SourceDir = SourceBaseDir args,
           SourceParentDir = Dir (SourceBaseDir args),
           BuildDir = Join [BuildBaseDir args, container],
           CacheDir = Join [CacheBaseDir args, image],
           PackagesDir = PackagesBaseDir args,
           PackagesTargetDir = Join [PackagesBaseDir args, Target args],
           PackagesSourceDir = Join [PackagesBaseDir args, Target args, Source args],
           PackagesVersionDir =
             Join [PackagesBaseDir args, Target args, Source args, Version args] \<rparr>)"


section \<open>Mount comparison (pkg/util/util.go)\<close>

text \<open>
  The fields of \<^verbatim>\<open>mount.Mount\<close> that the program sets. \<open>CompareMounts\<close> itself
  only uses equality of elements (\<^verbatim>\<open>slices.Contains\<close>), so it is stated for any type.
\<close>

datatype Mount = Mount (mountType: string) (mountSource: string) (mountTarget: string)
  (mountReadOnly: bool)

definition CompareMounts :: "'a list \<Rightarrow> 'a list \<Rightarrow> bool" where
  "CompareMounts a b =
     (if length a \<noteq> length b then False
      else
        (let matches = fold (\<lambda>aMount m. if aMount \<in> set b then m + 1 else m) a (0::nat)
         in matches = length a))"

text \<open>
  The three characters that \<open>standardizeVersion\<close> rewrites, and a path element that
  \<^verbatim>\<open>filepath.Clean\<close> keeps as it is (no separator inside, neither \<^verbatim>\<open>.\<close> nor \<^verbatim>\<open>..\<close>).
\<close>

definition specialChar :: "char \<Rightarrow> bool" where
  "specialChar c \<longleftrightarrow> c = CHR ''~'' \<or> c = CHR '':'' \<or> c = CHR ''+''"

definition plainElem :: "string \<Rightarrow> bool" where
  "plainElem v \<longleftrightarrow> CHR ''/'' \<notin> set v \<and> v \<noteq> ''.'' \<and> v \<noteq> ''..''"

text \<open>Two changelog states used as concrete inputs below.\<close>

definition args1 :: Args where
  "args1 = \<lparr>Prefix = ''deber'', Source = ''gtk+3.0'', Version = ''1.0~rc1'',
     Upstream = ''1.0~rc1'', Target = ''UNRELEASED'', SourceBaseDir = ''/home/u/gtk'',
     BuildBaseDir = ''/tmp/deber/builddir'', CacheBaseDir = ''/tmp/deber/cachedir'',
     PackagesBaseDir = ''/tmp/deber/packages''\<rparr>"

definition args2 :: Args where
  "args2 = \<lparr>Prefix = ''deber'', Source = ''hello'', Version = ''1.0~rc1+deb11u1:2'',
     Upstream = ''1.0~rc1+deb11u1'', Target = ''bookworm-security'',
     SourceBaseDir = ''/home/u/hello'',
     BuildBaseDir = ''/tmp/deber/builddir'', CacheBaseDir = ''/tmp/deber/cachedir'',
     PackagesBaseDir = ''/tmp/deber/packages''\<rparr>"


section \<open>Errors and stage outcomes\<close>

text \<open>
  A Go \<^verbatim>\<open>error\<close> is either made by the program with \<^verbatim>\<open>errors.New\<close> (the message is
  kept as written in the source) or comes back from the operating system or the container
  runtime.
\<close>

datatype error = Failure string | External string

text \<open>
  Modelled from the spec: the package \<^verbatim>\<open>pkg/log\<close> is not among the sources. A stage
  reports one of Done, Skipped or Failed; \<^verbatim>\<open>log.Failed(err)\<close> hands \<^verbatim>\<open>err\<close> to the
  caller, \<^verbatim>\<open>log.Done()\<close> and \<^verbatim>\<open>log.Skipped()\<close> hand back no error.
\<close>

datatype outcome = Done | Skipped | Failed error

fun outcomeError :: "outcome \<Rightarrow> error option" where
  "outcomeError Done = None"
| "outcomeError Skipped = None"
| "outcomeError (Failed e) = Some e"


section \<open>The file system the steps work on\<close>

text \<open>
  A directory is a list of named entries, and the file system maps the path of a directory
  to its entries. A path to an entry is the pair of the directory and the entry name: the
  steps only build such paths, by \<^verbatim>\<open>filepath.Join(dir, f.Name())\<close> with a name that
  \<^verbatim>\<open>os.ReadDir\<close> has returned. A symbolic link holds the path it points to. A
  subdirectory entry only records whether it is empty. The order of a listing is the order
  of the list (the steps do not depend on it). Not modelled: the process umask, devices
  and access rights.
\<close>

type_synonym bytes = string
type_synonym path = "string \<times> string"

datatype node = File bytes nat | Directory bool | Symlink path

type_synonym dirents = "(string \<times> node) list"
type_synonym fs = "string \<Rightarrow> dirents option"

definition noEntry :: error where
  "noEntry = External ''no such file or directory''"

definition isDirectory :: error where
  "isDirectory = External ''is a directory''"

definition tooManyLinks :: error where
  "tooManyLinks = External ''too many links''"

text \<open>\<^verbatim>\<open>os.ReadDir\<close>: the entries of a directory, an error when there is no such directory.\<close>

definition ReadDir :: "fs \<Rightarrow> string \<Rightarrow> error + dirents" where
  "ReadDir fs d = (case fs d of None \<Rightarrow> Inl noEntry | Some es \<Rightarrow> Inr es)"

text \<open>\<^verbatim>\<open>DirEntry.IsDir\<close>: true for a directory, false for a file and for a symbolic link.\<close>

fun IsDir :: "node \<Rightarrow> bool" where
  "IsDir (Directory _) = True"
| "IsDir _ = False"


text \<open>\<^verbatim>\<open>os.Lstat\<close>: the entry itself, links not followed.\<close>

definition Lstat :: "fs \<Rightarrow> path \<Rightarrow> node option" where
  "Lstat fs p = (case fs (fst p) of None \<Rightarrow> None | Some es \<Rightarrow> map_of es (snd p))"

definition putEntry :: "fs \<Rightarrow> path \<Rightarrow> node \<Rightarrow> fs" where
  "putEntry fs p nd =
     (case fs (fst p) of
        None \<Rightarrow> fs
      | Some es \<Rightarrow> fs(fst p \<mapsto> AList.update (snd p) nd es))"

definition delEntry :: "fs \<Rightarrow> path \<Rightarrow> fs" where
  "delEntry fs p =
     (case fs (fst p) of
        None \<Rightarrow> fs
      | Some es \<Rightarrow> fs(fst p \<mapsto> AList.delete (snd p) es))"

text \<open>
  Following symbolic links from a path, with a budget of links: the result is the first
  path on the chain that is not a link (it may not exist).
\<close>

fun resolve :: "fs \<Rightarrow> nat \<Rightarrow> path \<Rightarrow> error + path" where
  "resolve fs 0 p =
     (case Lstat fs p of
        Some (Symlink q) \<Rightarrow> Inl tooManyLinks
      | _ \<Rightarrow> Inr p)"
| "resolve fs (Suc k) p =
     (case Lstat fs p of
        Some (Symlink q) \<Rightarrow> resolve fs k q
      | _ \<Rightarrow> Inr p)"


text \<open>
  The system calls behind \<^verbatim>\<open>os.Stat\<close>, \<^verbatim>\<open>os.Open\<close> and \<^verbatim>\<open>os.WriteFile\<close> follow at most
  40 links.
\<close>

definition Stat :: "fs \<Rightarrow> path \<Rightarrow> error + node" where
  "Stat fs p =
     (case resolve fs 40 p of
        Inl e \<Rightarrow> Inl e
      | Inr q \<Rightarrow> (case Lstat fs q of None \<Rightarrow> Inl noEntry | Some nd \<Rightarrow> Inr nd))"

text \<open>\<^verbatim>\<open>os.Open\<close> for reading: the open file is the node that the path leads to.\<close>

definition Open :: "fs \<Rightarrow> path \<Rightarrow> error + node" where
  "Open fs p = Stat fs p"

text \<open>\<^verbatim>\<open>io.ReadAll\<close> on an open file: reading a directory fails.\<close>

fun ReadAll :: "node \<Rightarrow> error + bytes" where
  "ReadAll (File b m) = Inr b"
| "ReadAll _ = Inl isDirectory"

text \<open>\<^verbatim>\<open>File.Stat\<close> followed by \<^verbatim>\<open>Mode()\<close> on an open file.\<close>

fun FileMode :: "node \<Rightarrow> error + nat" where
  "FileMode (File b m) = Inr m"
| "FileMode _ = Inr 0"

text \<open>
  \<^verbatim>\<open>os.WriteFile(name, data, perm)\<close>: an existing file is truncated and written, its
  permissions stay; a missing file is created with \<open>perm\<close>; links are followed, also
  when the file is created.
\<close>

definition WriteFile :: "fs \<Rightarrow> path \<Rightarrow> bytes \<Rightarrow> nat \<Rightarrow> error + fs" where
  "WriteFile fs p data perm =
     (case resolve fs 40 p of
        Inl e \<Rightarrow> Inl e
      | Inr q \<Rightarrow>
          (case Lstat fs q of
             Some (File b m) \<Rightarrow> Inr (putEntry fs q (File data m))
           | Some _ \<Rightarrow> Inl isDirectory
           | None \<Rightarrow>
               (case fs (fst q) of
                  None \<Rightarrow> Inl noEntry
                | Some es \<Rightarrow> Inr (putEntry fs q (File data perm)))))"

text \<open>
  \<^verbatim>\<open>os.MkdirAll\<close>: an existing directory is left alone, a missing one is created empty.
  In this model the call cannot fail.
\<close>

definition MkdirAll :: "fs \<Rightarrow> string \<Rightarrow> error + fs" where
  "MkdirAll fs d = (case fs d of None \<Rightarrow> Inr (fs(d \<mapsto> [])) | Some es \<Rightarrow> Inr fs)"




section \<open>The container runtime (pkg/docker/docker.go)\<close>

text \<open>
  What the program reads of a listed container: its names (each with a leading \<^verbatim>\<open>/\<close>)
  and its state. The engine holds the containers; a listing can fail.
\<close>

record container =
  Names :: "string list"
  State :: string

record engine =
  containers :: "container list"
  listError :: "error option"

definition ContainerStateRunning :: string where
  "ContainerStateRunning = ''running''"

text \<open>\<^verbatim>\<open>client.ContainerList\<close> with \<^verbatim>\<open>All: true\<close>.\<close>

definition ContainerList :: "engine \<Rightarrow> error + container list" where
  "ContainerList eng =
     (case listError eng of Some e \<Rightarrow> Inl e | None \<Rightarrow> Inr (containers eng))"

text \<open>
  The three queries loop over the containers and over the names of each, and return at
  the first hit; \<open>list_ex\<close> is that search.
\<close>

definition IsContainerCreated :: "engine \<Rightarrow> string \<Rightarrow> error + bool" where
  "IsContainerCreated eng name =
     (case ContainerList eng of
        Inl err \<Rightarrow> Inl err
      | Inr list \<Rightarrow>
          Inr (list_ex (\<lambda>c. list_ex (\<lambda>nm. nm = ''/'' @ name) (Names c)) list))"

definition IsContainerStarted :: "engine \<Rightarrow> string \<Rightarrow> error + bool" where
  "IsContainerStarted eng name =
     (case ContainerList eng of
        Inl err \<Rightarrow> Inl err
      | Inr list \<Rightarrow>
          Inr (list_ex (\<lambda>c. list_ex (\<lambda>nm. nm = ''/'' @ name \<and> State c = ContainerStateRunning)
                              (Names c)) list))"

text \<open>
  \<open>IsContainerStopped\<close> returns false at the first container of that name that is
  running, and true after the loops.
\<close>

definition IsContainerStopped :: "engine \<Rightarrow> string \<Rightarrow> error + bool" where
  "IsContainerStopped eng name =
     (case ContainerList eng of
        Inl err \<Rightarrow> Inl err
      | Inr list \<Rightarrow>
          Inr (\<not> list_ex (\<lambda>c. list_ex (\<lambda>nm. nm = ''/'' @ name \<and> State c = ContainerStateRunning)
                                (Names c)) list))"

text \<open>
  \<^verbatim>\<open>client.ContainerStop\<close> and \<^verbatim>\<open>client.ContainerRemove\<close>: the engine refuses a name
  it does not know; stopping leaves the container in the state \<^verbatim>\<open>exited\<close>.
\<close>

definition hasName :: "string \<Rightarrow> container \<Rightarrow> bool" where
  "hasName name c = list_ex (\<lambda>nm. nm = ''/'' @ name) (Names c)"

definition ContainerStop :: "engine \<Rightarrow> string \<Rightarrow> error + engine" where
  "ContainerStop eng name =
     (if list_ex (hasName name) (containers eng)
      then Inr (eng\<lparr>containers :=
                  map (\<lambda>c. if hasName name c then c\<lparr>State := ''exited''\<rparr> else c)
                      (containers eng)\<rparr>)
      else Inl (External ''No such container''))"

definition ContainerRemove :: "engine \<Rightarrow> string \<Rightarrow> error + engine" where
  "ContainerRemove eng name =
     (if list_ex (hasName name) (containers eng)
      then
        (if list_ex (\<lambda>c. hasName name c \<and> State c = ContainerStateRunning) (containers eng)
         then Inl (External ''cannot remove a running container'')
         else Inr (eng\<lparr>containers := filter (\<lambda>c. \<not> hasName name c) (containers eng)\<rparr>))
      else Inl (External ''No such container''))"


section \<open>The steps (pkg/steps/steps.go)\<close>

subsection \<open>Stop and Remove\<close>

definition Stop :: "engine \<Rightarrow> Naming \<Rightarrow> outcome \<times> engine" where
  "Stop dock n =
     (case IsContainerStopped dock (Container n) of
        Inl err \<Rightarrow> (Failed err, dock)
      | Inr isContainerStopped \<Rightarrow>
          if isContainerStopped then (Skipped, dock)
          else
            (case ContainerStop dock (Container n) of
               Inl err \<Rightarrow> (Failed err, dock)
             | Inr dock' \<Rightarrow> (Done, dock')))"

definition Remove :: "engine \<Rightarrow> Naming \<Rightarrow> outcome \<times> engine" where
  "Remove dock n =
     (case IsContainerCreated dock (Container n) of
        Inl err \<Rightarrow> (Failed err, dock)
      | Inr isContainerCreated \<Rightarrow>
          if \<not> isContainerCreated then (Skipped, dock)
          else
            (case ContainerRemove dock (Container n) of
               Inl err \<Rightarrow> (Failed err, dock)
             | Inr dock' \<Rightarrow> (Done, dock')))"

subsection \<open>Tarball\<close>










text \<open>The state after the stale tarball of the build directory has been removed.\<close>

definition withoutStale :: "Naming \<Rightarrow> fs \<Rightarrow> string list \<Rightarrow> fs" where
  "withoutStale n fs blds = (if length blds = 1 then delEntry fs (BuildDir n, hd blds) else fs)"

subsection \<open>Archive\<close>

text \<open>
  What Archive does to one file is recorded: a call of \<^verbatim>\<open>os.WriteFile\<close> that succeeded,
  with the name, the bytes and the mode passed, or the file reported as skipped. The
  checksum function is a parameter (the program uses MD5).
\<close>

datatype event = Wrote string bytes nat | SkippedFile string

text \<open>
  The loop over the listing of the build directory. The listing is read once, before the
  loop; the files are opened in the file system as it is when their turn comes.
\<close>

fun archiveFiles ::
  "(bytes \<Rightarrow> 'c) \<Rightarrow> Naming \<Rightarrow> dirents \<Rightarrow> fs \<Rightarrow> event list \<Rightarrow> outcome \<times> fs \<times> event list"
where
  "archiveFiles md5 n [] fs evs = (Done, fs, evs)"
| "archiveFiles md5 n (f # files) fs evs =
     (if IsDir (snd f) then archiveFiles md5 n files fs evs
      else
        (let sourcePath = (BuildDir n, fst f);
             targetPath = (PackagesVersionDir n, fst f)
         in
        (case Open fs sourcePath of
           Inl err \<Rightarrow> (Failed err, fs, evs)
         | Inr sourceFile \<Rightarrow>
        (case ReadAll sourceFile of
           Inl err \<Rightarrow> (Failed err, fs, evs)
         | Inr sourceBytes \<Rightarrow>
        (case FileMode sourceFile of
           Inl err \<Rightarrow> (Failed err, fs, evs)
         | Inr sourceMode \<Rightarrow>
        (case (case Stat fs targetPath of
                 Inl _ \<Rightarrow> Inr False
               | Inr _ \<Rightarrow>
                   (case Open fs targetPath of
                      Inl err \<Rightarrow> Inl err
                    | Inr targetFile \<Rightarrow>
                        (case ReadAll targetFile of
                           Inl err \<Rightarrow> Inl err
                         | Inr targetBytes \<Rightarrow> Inr (md5 targetBytes = md5 sourceBytes)))) of
           Inl err \<Rightarrow> (Failed err, fs, evs)
         | Inr True \<Rightarrow> archiveFiles md5 n files fs (evs @ [SkippedFile (fst f)])
         | Inr False \<Rightarrow>
             (case WriteFile fs targetPath sourceBytes sourceMode of
                Inl err \<Rightarrow> (Failed err, fs, evs)
              | Inr fs' \<Rightarrow>
                  archiveFiles md5 n files fs' (evs @ [Wrote (fst f) sourceBytes sourceMode]))))))))"

definition Archive :: "(bytes \<Rightarrow> 'c) \<Rightarrow> Naming \<Rightarrow> fs \<Rightarrow> outcome \<times> fs \<times> event list" where
  "Archive md5 n fs =
     (case MkdirAll fs (PackagesVersionDir n) of
        Inl err \<Rightarrow> (Failed err, fs, [])
      | Inr fs1 \<Rightarrow>
          (case ReadDir fs1 (BuildDir n) of
             Inl err \<Rightarrow> (Failed err, fs1, [])
           | Inr files \<Rightarrow> archiveFiles md5 n files fs1 []))"


section \<open>The pipeline (main.go, function run)\<close>

text \<open>
  The stages in the order \<open>run\<close> calls them. \<open>run\<close> only sequences the stage
  functions of the steps package and looks at the error each returns, so the stage
  functions are a parameter: \<open>step s w\<close> is the error returned by stage \<open>s\<close> in the
  world \<open>w\<close> (engine and file system) and the world it leaves. The pipeline state
  records every stage called, with the error it returned, and the errors printed.
  The model starts after the naming has been derived.
\<close>

datatype stage =
  StBuild | StCreate | StStart | StShell | StTarball | StDepends | StPackage | StTest |
  StArchive | StStop | StRemove

record 'w pipeline =
  world :: 'w
  calls :: "(stage \<times> error option) list"
  printed :: "error list"

record flags =
  shell :: bool
  noRemove :: bool

definition call ::
  "(stage \<Rightarrow> 'w \<Rightarrow> error option \<times> 'w) \<Rightarrow> stage \<Rightarrow> 'w pipeline \<Rightarrow> error option \<times> 'w pipeline"
where
  "call step s p =
     (let (err, w) = step s (world p)
      in (err, p\<lparr>world := w, calls := calls p @ [(s, err)]\<rparr>))"

text \<open>All stages up to and including the dependencies.\<close>

definition runBefore ::
  "(stage \<Rightarrow> 'w \<Rightarrow> error option \<times> 'w) \<Rightarrow> 'w pipeline \<Rightarrow> error option \<times> 'w pipeline"
where
  "runBefore step p =
     (case call step StTarball p of
        (Some err, p) \<Rightarrow> (Some err, p)
      | (None, p) \<Rightarrow> call step StDepends p)"

text \<open>The stages after a successful packaging.\<close>

definition runAfter ::
  "(stage \<Rightarrow> 'w \<Rightarrow> error option \<times> 'w) \<Rightarrow> flags \<Rightarrow> 'w pipeline \<Rightarrow> error option \<times> 'w pipeline"
where
  "runAfter step fl p =
     (case call step StTest p of
        (Some err, p) \<Rightarrow> (Some err, p)
      | (None, p) \<Rightarrow>
     (case call step StArchive p of
        (Some err, p) \<Rightarrow> (Some err, p)
      | (None, p) \<Rightarrow>
     (case call step StStop p of
        (Some err, p) \<Rightarrow> (Some err, p)
      | (None, p) \<Rightarrow>
          if noRemove fl then (None, p) else call step StRemove p)))"

definition run ::
  "(stage \<Rightarrow> 'w \<Rightarrow> error option \<times> 'w) \<Rightarrow> flags \<Rightarrow> 'w \<Rightarrow> error option \<times> 'w pipeline"
where
  "run step fl w =
     (case call step StBuild \<lparr>world = w, calls = [], printed = []\<rparr> of
        (Some err, p) \<Rightarrow> (Some err, p)
      | (None, p) \<Rightarrow>
     (case call step StCreate p of
        (Some err, p) \<Rightarrow> (Some err, p)
      | (None, p) \<Rightarrow>
     (case call step StStart p of
        (Some err, p) \<Rightarrow> (Some err, p)
      | (None, p) \<Rightarrow>
          if shell fl then call step StShell p
          else
     (case runBefore step p of
        (Some err, p) \<Rightarrow> (Some err, p)
      | (None, p) \<Rightarrow>
     (case call step StPackage p of
        (Some err, p) \<Rightarrow>
          (case call step StRemove p of
             (Some errRemove, p) \<Rightarrow> (Some err, p\<lparr>printed := printed p @ [errRemove]\<rparr>)
           | (None, p) \<Rightarrow> (Some err, p))
      | (None, p) \<Rightarrow> runAfter step fl p)))))"

text \<open>
  A world for concrete runs: the engine, and a script that says which error, if any, each
  of the stages other than Stop and Remove returns. Stop and Remove are the functions of
  the steps package.
\<close>

definition scripted ::
  "(stage \<Rightarrow> error option) \<Rightarrow> Naming \<Rightarrow> stage \<Rightarrow> engine \<Rightarrow> error option \<times> engine"
where
  "scripted script n s dock =
     (if s = StStop then (let (out, dock') = Stop dock n in (outcomeError out, dock'))
      else if s = StRemove then
        (let (out, dock') = Remove dock n in (outcomeError out, dock'))
      else (script s, dock))"

definition packageFails :: "stage \<Rightarrow> error option" where
  "packageFails s =
     (if s = StPackage then Some (Failure ''command exited with non-zero status'') else None)"

text \<open>
  Concrete inputs: an engine without containers, an engine in which the container of
  \<open>args2\<close> is running, and the default flags.
\<close>

definition eng0 :: engine where
  "eng0 = \<lparr>containers = [], listError = None\<rparr>"

definition eng1 :: engine where
  "eng1 = \<lparr>containers =
             [\<lparr>Names = [''/deber_bookworm_hello_1.0-rc1-deb11u1-2''], State = ''running''\<rparr>],
           listError = None\<rparr>"

definition flags0 :: flags where
  "flags0 = \<lparr>shell = False, noRemove = False\<rparr>"


section \<open>Concrete packages and file systems\<close>








section \<open>Properties of the mount comparison\<close>

lemma fold_count:
  "fold (\<lambda>x m. if P x then m + 1 else m) xs (n::nat) = n + length (filter P xs)"
  by (induction xs arbitrary: n) auto

lemma filter_all_length: "(length (filter P xs) = length xs) = (\<forall>x\<in>set xs. P x)"
  by (metis filter_id_conv length_filter_less less_irrefl_nat)

lemma CompareMounts_iff:
  "CompareMounts a b \<longleftrightarrow> length a = length b \<and> set a \<subseteq> set b"
proof (cases "length a = length b")
  case False
  then show ?thesis by (simp add: CompareMounts_def)
next
  case True
  have "CompareMounts a b \<longleftrightarrow> length (filter (\<lambda>x. x \<in> set b) a) = length a"
    using True by (simp add: CompareMounts_def fold_count)
  also have "\<dots> \<longleftrightarrow> (\<forall>x\<in>set a. x \<in> set b)"
    by (rule filter_all_length)
  finally show ?thesis using True by auto
qed

lemma distinct_same_set:
  assumes "distinct a" "length a = length b" "set a \<subseteq> set b"
  shows "set b \<subseteq> set a"
proof -
  have "card (set a) = length a" using assms(1) by (simp add: distinct_card)
  moreover have "card (set b) \<le> length b" by (rule card_length)
  ultimately have "card (set b) \<le> card (set a)" using assms(2) by simp
  with assms(3) have "set a = set b" by (simp add: card_seteq)
  then show ?thesis by simp
qed

text \<open>
  Claim C2, as amended. \<open>CompareMounts existing desired\<close> is true exactly when the two
  lists have the same length and every element of the \<^emph>\<open>existing\<close> list occurs in the
  desired list (the loop runs over the first argument). The comparison ignores order: two
  lists with the same length and the same elements compare equal. When neither list
  repeats an element, the containment can be read in the direction of the specification
  (every desired element occurs in the existing list). A list with an element the desired
  list lacks always compares unequal; an existing list without repetitions that lacks a
  desired element compares unequal.
\<close>

theorem CompareMounts_content:
  "(CompareMounts existing desired \<longleftrightarrow>
      length existing = length desired \<and> (\<forall>m\<in>set existing. m \<in> set desired))
   \<and> (distinct existing \<and> distinct desired \<longrightarrow>
        (CompareMounts existing desired \<longleftrightarrow>
           length existing = length desired \<and> (\<forall>m\<in>set desired. m \<in> set existing)))
   \<and> (length existing = length desired \<and> set existing = set desired \<longrightarrow>
        CompareMounts existing desired)
   \<and> (distinct existing \<and> m \<in> set desired \<and> m \<notin> set existing \<longrightarrow>
        \<not> CompareMounts existing desired)
   \<and> (m \<in> set existing \<and> m \<notin> set desired \<longrightarrow> \<not> CompareMounts existing desired)"
proof -
  have 1: "CompareMounts existing desired \<longleftrightarrow>
      length existing = length desired \<and> (\<forall>m\<in>set existing. m \<in> set desired)"
    by (auto simp: CompareMounts_iff)
  have 2: "distinct existing \<and> distinct desired \<longrightarrow>
        (CompareMounts existing desired \<longleftrightarrow>
           length existing = length desired \<and> (\<forall>m\<in>set desired. m \<in> set existing))"
  proof (intro impI)
    assume d: "distinct existing \<and> distinct desired"
    show "CompareMounts existing desired \<longleftrightarrow>
           length existing = length desired \<and> (\<forall>m\<in>set desired. m \<in> set existing)"
    proof
      assume "CompareMounts existing desired"
      then have l: "length existing = length desired" and s: "set existing \<subseteq> set desired"
        by (simp_all add: CompareMounts_iff)
      from d l s have "set desired \<subseteq> set existing"
        using distinct_same_set[of existing desired] by simp
      with l show "length existing = length desired \<and> (\<forall>m\<in>set desired. m \<in> set existing)"
        by blast
    next
      assume a: "length existing = length desired \<and> (\<forall>m\<in>set desired. m \<in> set existing)"
      then have "set desired \<subseteq> set existing" by blast
      with d a have "set existing \<subseteq> set desired"
        using distinct_same_set[of desired existing] by simp
      with a show "CompareMounts existing desired" by (simp add: CompareMounts_iff)
    qed
  qed
  have 3: "length existing = length desired \<and> set existing = set desired \<longrightarrow>
        CompareMounts existing desired"
    by (simp add: CompareMounts_iff)
  have 4: "distinct existing \<and> m \<in> set desired \<and> m \<notin> set existing \<longrightarrow>
        \<not> CompareMounts existing desired"
  proof (intro impI notI)
    assume a: "distinct existing \<and> m \<in> set desired \<and> m \<notin> set existing"
    assume "CompareMounts existing desired"
    then have l: "length existing = length desired" and s: "set existing \<subseteq> set desired"
      by (simp_all add: CompareMounts_iff)
    from a l s have "set desired \<subseteq> set existing"
      using distinct_same_set[of existing desired] by simp
    with a show False by blast
  qed
  have 5: "m \<in> set existing \<and> m \<notin> set desired \<longrightarrow> \<not> CompareMounts existing desired"
    by (auto simp: CompareMounts_iff)
  from 1 2 3 4 5 show ?thesis by blast
qed

text \<open>
  The source, build and cache mounts in two orders compare equal; replacing the cache
  mount by an extra package mount makes them unequal.
\<close>

theorem CompareMounts_content_witness:
  "distinct [Mount ''bind'' ''/src'' ''/build/source'' False,
             Mount ''bind'' ''/b'' ''/build'' False]
   \<and> CompareMounts
        [Mount ''bind'' ''/src'' ''/build/source'' False, Mount ''bind'' ''/b'' ''/build'' False]
        [Mount ''bind'' ''/b'' ''/build'' False, Mount ''bind'' ''/src'' ''/build/source'' False]
   \<and> \<not> CompareMounts
        [Mount ''bind'' ''/src'' ''/build/source'' False, Mount ''bind'' ''/b'' ''/build'' False]
        [Mount ''bind'' ''/b'' ''/build'' False, Mount ''bind'' ''/p.deb'' ''/archive/p.deb'' True]"
  using CompareMounts_content
     [of "[Mount ''bind'' ''/src'' ''/build/source'' False, Mount ''bind'' ''/b'' ''/build'' False]"
         "[Mount ''bind'' ''/b'' ''/build'' False, Mount ''bind'' ''/src'' ''/build/source'' False]"]
   CompareMounts_content
     [of "[Mount ''bind'' ''/src'' ''/build/source'' False, Mount ''bind'' ''/b'' ''/build'' False]"
         "[Mount ''bind'' ''/b'' ''/build'' False, Mount ''bind'' ''/p.deb'' ''/archive/p.deb'' True]"
         "Mount ''bind'' ''/p.deb'' ''/archive/p.deb'' True"]
  by simp

text \<open>
  The claim as stated fails when the desired list repeats a mount (the same extra package
  given twice): both lists have two elements and every desired element is in the existing
  list, yet the comparison is false, because the existing build mount is not desired.
\<close>

theorem CompareMounts_desired_containment_counterexample:
  "length [Mount ''bind'' ''/src'' ''/build/source'' False, Mount ''bind'' ''/b'' ''/build'' False]
     = length [Mount ''bind'' ''/src'' ''/build/source'' False,
               Mount ''bind'' ''/src'' ''/build/source'' False]
   \<and> set [Mount ''bind'' ''/src'' ''/build/source'' False,
           Mount ''bind'' ''/src'' ''/build/source'' False]
       \<subseteq> set [Mount ''bind'' ''/src'' ''/build/source'' False,
                Mount ''bind'' ''/b'' ''/build'' False]
   \<and> \<not> CompareMounts
        [Mount ''bind'' ''/src'' ''/build/source'' False, Mount ''bind'' ''/b'' ''/build'' False]
        [Mount ''bind'' ''/src'' ''/build/source'' False,
         Mount ''bind'' ''/src'' ''/build/source'' False]"
  by (simp add: CompareMounts_def)


section \<open>Properties of the naming\<close>

subsection \<open>String helpers\<close>

lemma ReplaceAll_char:
  "ReplaceAll s [a] [b] = map (\<lambda>c. if c = a then b else c) s"
proof (induction s)
  case Nil
  show ?case by (simp add: ReplaceAll.simps[of "[]"])
next
  case (Cons x xs)
  then show ?case by (cases "a = x") (simp_all add: ReplaceAll.simps[of "x # xs"])
qed

lemma ReplaceAll_absent:
  "old \<noteq> [] \<Longrightarrow> \<not> Contains s old \<Longrightarrow> ReplaceAll s old new = s"
proof (induction s)
  case Nil
  then show ?case by (simp add: ReplaceAll.simps[of "[]"])
next
  case (Cons x xs)
  then show ?case by (simp add: ReplaceAll.simps[of "x # xs"])
qed

lemma ReplaceAll_UNRELEASED: "ReplaceAll ''UNRELEASED'' ''UNRELEASED'' ''unstable'' = ''unstable''"
  by (simp add: ReplaceAll.simps)

text \<open>\<open>Contains\<close> is the substring relation.\<close>

lemma Contains_iff: "Contains s sub \<longleftrightarrow> (\<exists>p q. s = p @ sub @ q)"
proof (induction s)
  case Nil
  show ?case by auto
next
  case (Cons x xs)
  show ?case
  proof
    assume "Contains (x # xs) sub"
    then consider "prefix sub (x # xs)" | "Contains xs sub" by auto
    then show "\<exists>p q. x # xs = p @ sub @ q"
    proof cases
      case 1
      then obtain q where "x # xs = sub @ q" by (auto simp: prefix_def)
      then have "x # xs = [] @ sub @ q" by simp
      then show ?thesis by blast
    next
      case 2
      with Cons obtain p q where "xs = p @ sub @ q" by blast
      then have "x # xs = (x # p) @ sub @ q" by simp
      then show ?thesis by blast
    qed
  next
    assume "\<exists>p q. x # xs = p @ sub @ q"
    then obtain p q where pq: "x # xs = p @ sub @ q" by blast
    show "Contains (x # xs) sub"
    proof (cases p)
      case Nil
      with pq have "prefix sub (x # xs)" by (simp add: prefix_def)
      then show ?thesis by simp
    next
      case (Cons y ys)
      with pq have "xs = ys @ sub @ q" by simp
      with Cons.IH have "Contains xs sub" by blast
      then show ?thesis by simp
    qed
  qed
qed

lemma Split_not_Nil: "Split s c \<noteq> []"
  by (induction s) (auto split: list.splits)

lemma hd_Split: "hd (Split s c) = takeWhile (\<lambda>x. x \<noteq> c) s"
  by (induction s) (auto simp: Split_not_Nil split: list.splits)

lemma Split_no_sep: "c \<notin> set v \<Longrightarrow> Split v c = [v]"
  by (induction v) auto

lemma Split_snoc: "c \<notin> set v \<Longrightarrow> Split (a @ c # v) c = Split a c @ [v]"
  by (induction a) (auto simp: Split_no_sep Split_not_Nil split: list.splits)

subsection \<open>The last element of a joined path\<close>

lemma cleanElems_snoc:
  "v \<noteq> [] \<Longrightarrow> v \<noteq> ''.'' \<Longrightarrow> v \<noteq> ''..'' \<Longrightarrow>
   cleanElems r st (xs @ [v]) = cleanElems r st xs @ [v]"
  by (induction xs arbitrary: st) (auto split: list.splits)

lemma strJoin_snoc:
  "strJoin (ys @ [v]) sep = (if ys = [] then v else strJoin ys sep @ sep @ v)"
  by (induction ys sep rule: strJoin.induct) auto

lemma strJoin_snoc_sep:
  "ys \<noteq> [] \<Longrightarrow> strJoin (ys @ [v]) ''/'' = strJoin ys ''/'' @ CHR ''/'' # v"
  by (simp add: strJoin_snoc)

lemma Clean_plain: "v \<noteq> [] \<Longrightarrow> plainElem v \<Longrightarrow> Clean v = v"
  by (cases v) (auto simp: Clean_def plainElem_def Split_no_sep Let_def)

lemma Clean_snoc:
  assumes "v \<noteq> []" "plainElem v"
  shows "suffix v (Clean (a @ CHR ''/'' # v))"
proof -
  let ?p = "a @ CHR ''/'' # v"
  let ?r = "hd ?p = CHR ''/''"
  have s: "Split ?p (CHR ''/'') = Split a (CHR ''/'') @ [v]"
    using assms by (simp add: Split_snoc plainElem_def)
  have c: "cleanElems ?r [] (Split ?p (CHR ''/'')) = cleanElems ?r [] (Split a (CHR ''/'')) @ [v]"
    using assms by (simp add: s cleanElems_snoc plainElem_def)
  have "suffix v (strJoin (cleanElems ?r [] (Split ?p (CHR ''/''))) ''/'')"
    unfolding c strJoin_snoc by (auto simp: suffix_def)
  then obtain w where w: "strJoin (cleanElems ?r [] (Split ?p (CHR ''/''))) ''/'' = w @ v"
    by (auto simp: suffix_def)
  have "?p \<noteq> []" by simp
  then have "Clean ?p = (if ?r then ''/'' else []) @ w @ v"
    using assms(1) w by (simp add: Clean_def Let_def del: hd_append2)
  then show ?thesis by (auto simp: suffix_def)
qed

lemma Join_last:
  assumes "plainElem v"
  shows "suffix v (Join (xs @ [v]))"
proof (cases "v = []")
  case True
  then show ?thesis by simp
next
  case False
  note v = this
  show ?thesis
  proof (cases "\<forall>x\<in>set xs. x = []")
    case True
    then have "dropWhile (\<lambda>e. e = []) (xs @ [v]) = [v]"
      using v by (simp add: dropWhile_append2)
    then show ?thesis using v assms by (simp add: Join_def Clean_plain)
  next
    case False
    then have ne: "dropWhile (\<lambda>e. e = []) xs \<noteq> []" by auto
    from False have d: "dropWhile (\<lambda>e. e = []) (xs @ [v]) = dropWhile (\<lambda>e. e = []) xs @ [v]"
      by (metis (mono_tags, lifting) dropWhile_append1 dropWhile_eq_Nil_conv ne)
    obtain y ys where y: "dropWhile (\<lambda>e. e = []) xs = y # ys"
      using ne by (cases "dropWhile (\<lambda>e. e = []) xs") auto
    have "Join (xs @ [v]) = Clean (strJoin (dropWhile (\<lambda>e. e = []) xs @ [v]) ''/'')"
      by (simp add: Join_def d y)
    also have "\<dots> = Clean (strJoin (dropWhile (\<lambda>e. e = []) xs) ''/'' @ CHR ''/'' # v)"
      using ne by (simp add: strJoin_snoc_sep)
    finally show ?thesis using Clean_snoc[OF v assms] by simp
  qed
qed

subsection \<open>Version and target\<close>

lemma standardizeVersion_map:
  "standardizeVersion v =
     map (\<lambda>c. if c = CHR ''~'' \<or> c = CHR '':'' \<or> c = CHR ''+'' then CHR ''-'' else c) v"
  by (simp add: standardizeVersion_def ReplaceAll_char)

lemma standardizeVersion_clean:
  "\<forall>c\<in>set (standardizeVersion v). \<not> specialChar c"
  by (auto simp: standardizeVersion_map specialChar_def)

lemma standardizeVersion_changes:
  "(\<exists>c\<in>set v. specialChar c) \<longleftrightarrow> standardizeVersion v \<noteq> v"
proof -
  have "standardizeVersion v = v \<longleftrightarrow> (\<forall>c\<in>set v. \<not> specialChar c)"
    unfolding standardizeVersion_map
    by (induction v) (auto simp: specialChar_def)
  then show ?thesis by blast
qed

lemma standardizeTarget_eq:
  "standardizeTarget v t =
     takeWhile (\<lambda>c. c \<noteq> CHR ''-'') (ReplaceAll t ''UNRELEASED'' ''unstable'') @
     (if Contains v ''bpo'' then ''-backports'' else [])"
  by (simp add: standardizeTarget_def hd_Split)

lemma New_Container:
  "Container (New args) =
     Prefix args @ ''_'' @ standardizeTarget (Version args) (Target args) @ ''_'' @
     Source args @ ''_'' @ standardizeVersion (Version args)"
  by (simp add: New_def Let_def)

lemma New_Image:
  "Image (New args) = Prefix args @ '':'' @ standardizeTarget (Version args) (Target args)"
  by (simp add: New_def Let_def)

lemma New_fields:
  "Target (Args (New args)) = standardizeTarget (Version args) (Target args)"
  "Version (Args (New args)) = Version args"
  "BuildDir (New args) = Join [BuildBaseDir args, Container (New args)]"
  "CacheDir (New args) = Join [CacheBaseDir args, Image (New args)]"
  "PackagesTargetDir (New args) =
     Join [PackagesBaseDir args, standardizeTarget (Version args) (Target args)]"
  "PackagesSourceDir (New args) =
     Join [PackagesBaseDir args, standardizeTarget (Version args) (Target args), Source args]"
  "PackagesVersionDir (New args) =
     Join [PackagesBaseDir args, standardizeTarget (Version args) (Target args), Source args,
           Version args]"
  by (simp_all add: New_def Let_def)

text \<open>
  Claim C6, as amended. The container name is \<open>prefix_target_source_version\<close> with the
  sanitized target and the sanitized version; sanitizing replaces every \<^verbatim>\<open>~\<close>, \<^verbatim>\<open>:\<close> and
  \<^verbatim>\<open>+\<close> of the version by \<^verbatim>\<open>-\<close>, so the version component of the name has none of
  them, and the whole name has none of them when the prefix, the sanitized target and the
  source name have none. Version \<^verbatim>\<open>1.0~rc1+deb11u1:2\<close> gives \<^verbatim>\<open>1.0-rc1-deb11u1-2\<close>.
\<close>

theorem Container_version_sanitized:
  "Container (New args) =
     Prefix args @ ''_'' @ standardizeTarget (Version args) (Target args) @ ''_'' @
     Source args @ ''_'' @ standardizeVersion (Version args)
   \<and> standardizeVersion v = map (\<lambda>c. if specialChar c then CHR ''-'' else c) v
   \<and> (\<forall>c\<in>set (standardizeVersion v). \<not> specialChar c)
   \<and> ((\<forall>c\<in>set (Prefix args @ standardizeTarget (Version args) (Target args) @ Source args).
          \<not> specialChar c)
        \<longrightarrow> (\<forall>c\<in>set (Container (New args)). \<not> specialChar c))
   \<and> standardizeVersion ''1.0~rc1+deb11u1:2'' = ''1.0-rc1-deb11u1-2''"
proof -
  have 2: "standardizeVersion v = map (\<lambda>c. if specialChar c then CHR ''-'' else c) v"
    by (simp add: standardizeVersion_map specialChar_def)
  have 4: "(\<forall>c\<in>set (Prefix args @ standardizeTarget (Version args) (Target args) @ Source args).
          \<not> specialChar c)
        \<longrightarrow> (\<forall>c\<in>set (Container (New args)). \<not> specialChar c)"
    using standardizeVersion_clean[of "Version args"]
    by (auto simp: New_Container specialChar_def)
  have 5: "standardizeVersion ''1.0~rc1+deb11u1:2'' = ''1.0-rc1-deb11u1-2''"
    by (simp add: standardizeVersion_map)
  from New_Container 2 standardizeVersion_clean 4 5 show ?thesis by blast
qed

theorem Container_version_sanitized_witness:
  "\<not> (\<exists>c\<in>set (Prefix args2 @ standardizeTarget (Version args2) (Target args2) @ Source args2).
          specialChar c)
   \<and> Container (New args2) = ''deber_bookworm_hello_1.0-rc1-deb11u1-2''
   \<and> \<not> (\<exists>c\<in>set (Container (New args2)). specialChar c)"
proof -
  have t: "standardizeTarget (Version args2) (Target args2) = ''bookworm''"
    by (simp add: args2_def standardizeTarget_def ReplaceAll.simps)
  have h: "\<forall>c\<in>set (Prefix args2 @ standardizeTarget (Version args2) (Target args2) @ Source args2).
          \<not> specialChar c"
    unfolding t by (simp add: args2_def specialChar_def)
  have c: "Container (New args2) = ''deber_bookworm_hello_1.0-rc1-deb11u1-2''"
    using Container_version_sanitized[of args2 "Version args2"] t
    by (simp add: args2_def specialChar_def)
  from h c Container_version_sanitized[of args2 "Version args2"] show ?thesis by blast
qed

text \<open>
  The claim as stated fails for a source package whose name has a \<^verbatim>\<open>+\<close>: the version
  \<^verbatim>\<open>1.0~rc1\<close> has a \<^verbatim>\<open>~\<close>, and the container name of source \<^verbatim>\<open>gtk+3.0\<close> still has
  a \<^verbatim>\<open>+\<close>, because only the version is sanitized.
\<close>

theorem Container_special_char_counterexample:
  "CHR ''~'' \<in> set (Version args1) \<and> CHR ''+'' \<in> set (Container (New args1))"
  by (simp add: args1_def New_Container)

text \<open>
  Claim C7. The image name is \<open>prefix:target\<close> with the sanitized target. The sanitized
  target is the input with \<^verbatim>\<open>UNRELEASED\<close> replaced by \<^verbatim>\<open>unstable\<close>, cut before its first
  \<^verbatim>\<open>-\<close>, followed by \<^verbatim>\<open>-backports\<close> exactly when the version contains \<^verbatim>\<open>bpo\<close>.
  So \<^verbatim>\<open>UNRELEASED\<close> gives \<^verbatim>\<open>unstable\<close>, \<^verbatim>\<open>bookworm-security\<close> gives \<^verbatim>\<open>bookworm\<close>, and
  \<^verbatim>\<open>bookworm\<close> with a \<^verbatim>\<open>bpo\<close> version gives \<^verbatim>\<open>bookworm-backports\<close>.
\<close>

theorem Image_target_sanitized:
  "Image (New args) = Prefix args @ '':'' @ standardizeTarget (Version args) (Target args)
   \<and> standardizeTarget v t =
       takeWhile (\<lambda>c. c \<noteq> CHR ''-'') (ReplaceAll t ''UNRELEASED'' ''unstable'') @
       (if Contains v ''bpo'' then ''-backports'' else [])
   \<and> (\<not> Contains t ''UNRELEASED'' \<longrightarrow>
        standardizeTarget v t =
          takeWhile (\<lambda>c. c \<noteq> CHR ''-'') t @ (if Contains v ''bpo'' then ''-backports'' else []))
   \<and> standardizeTarget v ''UNRELEASED'' =
        ''unstable'' @ (if Contains v ''bpo'' then ''-backports'' else [])
   \<and> standardizeTarget ''1.0-1'' ''UNRELEASED'' = ''unstable''
   \<and> standardizeTarget ''1.0-1'' ''bookworm-security'' = ''bookworm''
   \<and> standardizeTarget ''1.0-1~bpo12+1'' ''bookworm'' = ''bookworm-backports''"
proof -
  have 3: "\<not> Contains t ''UNRELEASED'' \<longrightarrow>
        standardizeTarget v t =
          takeWhile (\<lambda>c. c \<noteq> CHR ''-'') t @ (if Contains v ''bpo'' then ''-backports'' else [])"
    by (simp add: standardizeTarget_eq ReplaceAll_absent)
  have 4: "standardizeTarget v ''UNRELEASED'' =
        ''unstable'' @ (if Contains v ''bpo'' then ''-backports'' else [])"
    by (simp add: standardizeTarget_eq ReplaceAll_UNRELEASED)
  have 5: "standardizeTarget ''1.0-1'' ''UNRELEASED'' = ''unstable''"
    by (simp add: standardizeTarget_eq ReplaceAll_UNRELEASED)
  have 6: "standardizeTarget ''1.0-1'' ''bookworm-security'' = ''bookworm''"
    by (simp add: standardizeTarget_eq ReplaceAll_absent)
  have 7: "standardizeTarget ''1.0-1~bpo12+1'' ''bookworm'' = ''bookworm-backports''"
    by (simp add: standardizeTarget_eq ReplaceAll_absent)
  from New_Image standardizeTarget_eq 3 4 5 6 7 show ?thesis by blast
qed

theorem Image_target_sanitized_witness:
  "\<not> Contains ''bookworm-security'' ''UNRELEASED''
   \<and> standardizeTarget ''1.0-1~bpo12+1'' ''bookworm-security'' = ''bookworm-backports''"
proof -
  have h: "\<not> Contains ''bookworm-security'' ''UNRELEASED''" by simp
  from h Image_target_sanitized[of args1 "''1.0-1~bpo12+1''" "''bookworm-security''"]
  have "standardizeTarget ''1.0-1~bpo12+1'' ''bookworm-security'' =
          takeWhile (\<lambda>c. c \<noteq> CHR ''-'') ''bookworm-security'' @
          (if Contains ''1.0-1~bpo12+1'' ''bpo'' then ''-backports'' else [])"
    by blast
  then have "standardizeTarget ''1.0-1~bpo12+1'' ''bookworm-security'' = ''bookworm-backports''"
    by simp
  with h show ?thesis by blast
qed

text \<open>
  Claim C9. \<open>New\<close> overwrites the target with the sanitized target before it derives
  anything, so the image, the container, the build and cache directories and the three
  package-store paths are all built from the sanitized target. The versioned store path
  is joined from the version as given, and ends with it when the version is a plain path
  element; the container name ends with the sanitized version. The two differ whenever
  the version has a \<^verbatim>\<open>~\<close>, \<^verbatim>\<open>:\<close> or \<^verbatim>\<open>+\<close>.
\<close>

theorem New_target_and_version_renderings:
  "Target (Args (New args)) = standardizeTarget (Version args) (Target args)
   \<and> Version (Args (New args)) = Version args
   \<and> Image (New args) = Prefix args @ '':'' @ Target (Args (New args))
   \<and> Container (New args) =
       Prefix args @ ''_'' @ Target (Args (New args)) @ ''_'' @ Source args @ ''_'' @
       standardizeVersion (Version args)
   \<and> BuildDir (New args) = Join [BuildBaseDir args, Container (New args)]
   \<and> CacheDir (New args) = Join [CacheBaseDir args, Image (New args)]
   \<and> PackagesTargetDir (New args) = Join [PackagesBaseDir args, Target (Args (New args))]
   \<and> PackagesSourceDir (New args) =
       Join [PackagesBaseDir args, Target (Args (New args)), Source args]
   \<and> PackagesVersionDir (New args) =
       Join [PackagesBaseDir args, Target (Args (New args)), Source args, Version args]
   \<and> (plainElem (Version args) \<longrightarrow> suffix (Version args) (PackagesVersionDir (New args)))
   \<and> suffix (standardizeVersion (Version args)) (Container (New args))
   \<and> ((\<exists>c\<in>set (Version args). specialChar c)
        \<longrightarrow> standardizeVersion (Version args) \<noteq> Version args)"
proof -
  have a: "plainElem (Version args) \<longrightarrow> suffix (Version args) (PackagesVersionDir (New args))"
    using Join_last[of "Version args"
        "[PackagesBaseDir args, standardizeTarget (Version args) (Target args), Source args]"]
    by (simp add: New_fields)
  have b: "suffix (standardizeVersion (Version args)) (Container (New args))"
    by (simp add: New_Container suffix_def)
  have c: "(\<exists>c\<in>set (Version args). specialChar c)
        \<longrightarrow> standardizeVersion (Version args) \<noteq> Version args"
    using standardizeVersion_changes[of "Version args"] by blast
  show ?thesis
    using a b c by (simp add: New_fields New_Image New_Container)
qed

theorem New_target_and_version_renderings_witness:
  "plainElem (Version args1) \<and> (\<exists>c\<in>set (Version args1). specialChar c)
   \<and> PackagesVersionDir (New args1) = ''/tmp/deber/packages/unstable/gtk+3.0/1.0~rc1''
   \<and> Container (New args1) = ''deber_unstable_gtk+3.0_1.0-rc1''
   \<and> suffix (Version args1) (PackagesVersionDir (New args1))
   \<and> standardizeVersion (Version args1) \<noteq> Version args1"
proof -
  have p: "plainElem (Version args1)" by (simp add: args1_def plainElem_def)
  have s: "\<exists>c\<in>set (Version args1). specialChar c" by (simp add: args1_def specialChar_def)
  have t: "standardizeTarget (Version args1) (Target args1) = ''unstable''"
    by (simp add: args1_def standardizeTarget_eq ReplaceAll_UNRELEASED)
  have v: "standardizeVersion (Version args1) = ''1.0-rc1''"
    by (simp add: args1_def standardizeVersion_map)
  have j: "Join [''/tmp/deber/packages'', ''unstable'', ''gtk+3.0'', ''1.0~rc1'']
             = ''/tmp/deber/packages/unstable/gtk+3.0/1.0~rc1''"
    by code_simp
  have d: "PackagesVersionDir (New args1) = ''/tmp/deber/packages/unstable/gtk+3.0/1.0~rc1''"
    using New_target_and_version_renderings[of args1] t j by (simp add: args1_def)
  have c: "Container (New args1) = ''deber_unstable_gtk+3.0_1.0-rc1''"
    using New_target_and_version_renderings[of args1] t v by (simp add: args1_def)
  from p s d c New_target_and_version_renderings[of args1] show ?thesis by blast
qed


section \<open>Properties of the container queries\<close>

lemma list_ex_hasName:
  "list_ex (\<lambda>c. list_ex (\<lambda>nm. nm = CHR ''/'' # name \<and> State c = s) (Names c)) list
   = list_ex (\<lambda>c. hasName name c \<and> State c = s) list"
  by (auto simp: list_ex_iff hasName_def)

text \<open>
  Claim C3, as amended. When the listing succeeds, \<open>IsContainerStopped\<close> is true
  exactly when no container of that name is in the running state: it is the negation of
  \<open>IsContainerStarted\<close>, and so it is true when no container of that name exists.
  When the listing fails, the error is returned. The Stop stage skips exactly when the
  query returns true.
\<close>

theorem IsContainerStopped_not_running:
  "(ContainerList eng = Inr list \<longrightarrow>
      IsContainerStopped eng name =
        Inr (\<not> list_ex (\<lambda>c. hasName name c \<and> State c = ContainerStateRunning) list)
      \<and> (\<exists>r. IsContainerStarted eng name = Inr r \<and> IsContainerStopped eng name = Inr (\<not> r))
      \<and> (IsContainerCreated eng name = Inr False \<longrightarrow> IsContainerStopped eng name = Inr True))
   \<and> (ContainerList eng = Inl e \<longrightarrow> IsContainerStopped eng name = Inl e)
   \<and> (fst (Stop eng n) = Skipped \<longleftrightarrow> IsContainerStopped eng (Container n) = Inr True)"
proof -
  have 1: "ContainerList eng = Inr list \<longrightarrow>
      IsContainerStopped eng name =
        Inr (\<not> list_ex (\<lambda>c. hasName name c \<and> State c = ContainerStateRunning) list)"
    by (simp add: IsContainerStopped_def list_ex_hasName)
  have 2: "ContainerList eng = Inr list \<longrightarrow>
      (\<exists>r. IsContainerStarted eng name = Inr r \<and> IsContainerStopped eng name = Inr (\<not> r))"
    by (simp add: IsContainerStopped_def IsContainerStarted_def)
  have 3: "ContainerList eng = Inr list \<longrightarrow>
      (IsContainerCreated eng name = Inr False \<longrightarrow> IsContainerStopped eng name = Inr True)"
    by (auto simp: IsContainerStopped_def IsContainerCreated_def list_ex_iff)
  have 4: "ContainerList eng = Inl e \<longrightarrow> IsContainerStopped eng name = Inl e"
    by (simp add: IsContainerStopped_def)
  have 5: "fst (Stop eng n) = Skipped \<longleftrightarrow> IsContainerStopped eng (Container n) = Inr True"
    by (auto simp: Stop_def split: sum.splits)
  from 1 2 3 4 5 show ?thesis by blast
qed

theorem IsContainerStopped_not_running_witness:
  "ContainerList eng1 = Inr (containers eng1)
   \<and> IsContainerCreated eng1 ''deber_sid_hello_2.0'' = Inr False
   \<and> IsContainerStopped eng1 ''deber_sid_hello_2.0'' = Inr True
   \<and> IsContainerStopped eng1 (Container (New args2)) = Inr False
   \<and> fst (Stop eng1 (New args2)) = Done"
proof -
  have l: "ContainerList eng1 = Inr (containers eng1)"
    by (simp add: ContainerList_def eng1_def)
  have c: "IsContainerCreated eng1 ''deber_sid_hello_2.0'' = Inr False"
    by (simp add: IsContainerCreated_def ContainerList_def eng1_def)
  have s: "IsContainerStopped eng1 ''deber_sid_hello_2.0'' = Inr True"
    using IsContainerStopped_not_running[of eng1 "containers eng1" "''deber_sid_hello_2.0''"] l c by blast
  have n: "Container (New args2) = ''deber_bookworm_hello_1.0-rc1-deb11u1-2''"
    by (simp add: New_Container args2_def standardizeTarget_eq standardizeVersion_map
        ReplaceAll_absent)
  have r: "IsContainerStopped eng1 (Container (New args2)) = Inr False"
    unfolding n by (simp add: IsContainerStopped_def ContainerList_def eng1_def
        ContainerStateRunning_def)
  have d: "fst (Stop eng1 (New args2)) = Done"
    by (simp add: Stop_def n IsContainerStopped_def ContainerList_def eng1_def
        ContainerStateRunning_def ContainerStop_def hasName_def)
  from l c s r d show ?thesis by blast
qed

text \<open>
  The claim as stated fails on an engine without containers: the container does not
  exist, and the query returns true.
\<close>

theorem IsContainerStopped_absent_counterexample:
  "IsContainerCreated eng0 ''deber_sid_hello_2.0'' = Inr False
   \<and> IsContainerStopped eng0 ''deber_sid_hello_2.0'' = Inr True"
  by (simp add: IsContainerCreated_def IsContainerStopped_def ContainerList_def eng0_def)

section \<open>Properties of the pipeline\<close>

lemma call_calls:
  "call step s p = (r, p') \<Longrightarrow> calls p' = calls p @ [(s, r)] \<and> printed p' = printed p"
  by (auto simp: call_def split: prod.splits)

lemma runBefore_calls:
  assumes "runBefore step p = (r, p')"
  shows "printed p' = printed p \<and>
         (calls p' = calls p @ [(StTarball, r)] \<and> r \<noteq> None
          \<or> calls p' = calls p @ [(StTarball, None), (StDepends, r)])"
proof (cases "call step StTarball p")
  case (Pair r1 p1)
  note c1 = call_calls[OF Pair]
  show ?thesis
  proof (cases r1)
    case None
    with assms Pair have "call step StDepends p1 = (r, p')" by (simp add: runBefore_def)
    from call_calls[OF this] c1 None show ?thesis by simp
  next
    case (Some e)
    with assms Pair have "r = Some e" "p' = p1" by (simp_all add: runBefore_def)
    with c1 Some show ?thesis by simp
  qed
qed

lemma runAfter_calls:
  assumes "runAfter step fl p = (r, p')"
  shows "\<exists>xs. calls p' = calls p @ xs \<and> StPackage \<notin> fst ` set xs"
proof (cases "call step StTest p")
  case (Pair r1 p1)
  note c1 = call_calls[OF Pair]
  show ?thesis
  proof (cases r1)
    case (Some e)
    with assms Pair have "p' = p1" by (simp add: runAfter_def)
    with c1 show ?thesis by simp
  next
    case None
    note n1 = this
    show ?thesis
    proof (cases "call step StArchive p1")
      case (Pair r2 p2)
      note c2 = call_calls[OF Pair]
      show ?thesis
      proof (cases r2)
        case (Some e)
        with assms \<open>call step StTest p = (r1, p1)\<close> n1 Pair have "p' = p2"
          by (simp add: runAfter_def)
        with c1 c2 show ?thesis by simp
      next
        case None
        note n2 = this
        show ?thesis
        proof (cases "call step StStop p2")
          case (Pair r3 p3)
          note c3 = call_calls[OF Pair]
          show ?thesis
          proof (cases "r3 = None \<and> \<not> noRemove fl")
            case False
            with assms \<open>call step StTest p = (r1, p1)\<close> n1 \<open>call step StArchive p1 = (r2, p2)\<close> n2 Pair
            have "p' = p3" by (auto simp: runAfter_def split: option.splits)
            with c1 c2 c3 show ?thesis by simp
          next
            case True
            with assms \<open>call step StTest p = (r1, p1)\<close> n1 \<open>call step StArchive p1 = (r2, p2)\<close> n2 Pair
            have "call step StRemove p3 = (r, p')" by (auto simp: runAfter_def)
            from call_calls[OF this] c1 c2 c3 show ?thesis by simp
          qed
        qed
      qed
    qed
  qed
qed


text \<open>
  Claim C8. If the Package stage is called and returns an error, then \<open>run\<close> returns
  that error; the stages called are Build, Create, Start, Tarball, Depends, Package and
  then Remove, once, in every world (whatever containers exist); Test, Archive and Stop
  are not called; an error of that Remove is printed and not returned.
\<close>

theorem run_Package_failure:
  assumes "run step fl w = (r, p)" and "(StPackage, Some e) \<in> set (calls p)"
  shows "r = Some e \<and>
         (\<exists>errRemove.
            calls p = [(StBuild, None), (StCreate, None), (StStart, None), (StTarball, None),
                       (StDepends, None), (StPackage, Some e), (StRemove, errRemove)]
            \<and> printed p = (case errRemove of None \<Rightarrow> [] | Some x \<Rightarrow> [x]))"
proof -
  let ?p0 = "\<lparr>world = w, calls = [], printed = []\<rparr>"
  obtain r1 p1 where 1: "call step StBuild ?p0 = (r1, p1)" by (cases "call step StBuild ?p0")
  obtain r2 p2 where 2: "call step StCreate p1 = (r2, p2)" by (cases "call step StCreate p1")
  obtain r3 p3 where 3: "call step StStart p2 = (r3, p3)" by (cases "call step StStart p2")
  obtain r4 p4 where 4: "runBefore step p3 = (r4, p4)" by (cases "runBefore step p3")
  obtain r5 p5 where 5: "call step StPackage p4 = (r5, p5)" by (cases "call step StPackage p4")
  obtain r6 p6 where 6: "call step StRemove p5 = (r6, p6)" by (cases "call step StRemove p5")
  obtain r7 p7 where 7: "call step StShell p3 = (r7, p7)" by (cases "call step StShell p3")
  obtain r8 p8 where 8: "runAfter step fl p5 = (r8, p8)" by (cases "runAfter step fl p5")
  note c1 = call_calls[OF 1] and c2 = call_calls[OF 2] and c3 = call_calls[OF 3]
    and c4 = runBefore_calls[OF 4] and c5 = call_calls[OF 5] and c6 = call_calls[OF 6]
    and c7 = call_calls[OF 7]
  from runAfter_calls[OF 8] obtain xs where
    c8: "calls p8 = calls p5 @ xs" "StPackage \<notin> fst ` set xs" by blast
  have nP: "\<And>s x. (StPackage, x) \<in> set xs \<Longrightarrow> False"
    using c8(2) by force
  consider (a) "r1 \<noteq> None" | (b) "r1 = None" "r2 \<noteq> None"
    | (c) "r1 = None" "r2 = None" "r3 \<noteq> None"
    | (d) "r1 = None" "r2 = None" "r3 = None" "shell fl"
    | (e) "r1 = None" "r2 = None" "r3 = None" "\<not> shell fl" "r4 \<noteq> None"
    | (f) "r1 = None" "r2 = None" "r3 = None" "\<not> shell fl" "r4 = None" "r5 = None"
    | (g) "r1 = None" "r2 = None" "r3 = None" "\<not> shell fl" "r4 = None" "r5 \<noteq> None"
    by blast
  then show ?thesis
  proof cases
    case a
    with assms(1) 1 have "p = p1" by (auto simp: run_def)
    with c1 assms(2) show ?thesis by simp
  next
    case b
    with assms(1) 1 2 have "p = p2" by (auto simp: run_def)
    with c1 c2 assms(2) show ?thesis by simp
  next
    case c
    with assms(1) 1 2 3 have "p = p3" by (auto simp: run_def)
    with c1 c2 c3 assms(2) show ?thesis by simp
  next
    case d
    with assms(1) 1 2 3 7 have "p = p7" by (auto simp: run_def)
    with c1 c2 c3 c7 assms(2) show ?thesis by simp
  next
    case e
    with assms(1) 1 2 3 4 have "p = p4" by (auto simp: run_def)
    with c1 c2 c3 c4 assms(2) show ?thesis by auto
  next
    case f
    with assms(1) 1 2 3 4 5 8 have "p = p8" by (auto simp: run_def)
    with c1 c2 c3 c4 c5 c8 f assms(2) nP show ?thesis by auto
  next
    case g
    then obtain e5 where e5: "r5 = Some e5" by blast
    with g assms(1) 1 2 3 4 5 6 have rp: "r = Some e5"
      "p = (case r6 of None \<Rightarrow> p6 | Some er \<Rightarrow> p6\<lparr>printed := printed p6 @ [er]\<rparr>)"
      by (auto simp: run_def split: option.splits)
    from c1 c2 c3 c4 c5 c6 g e5 have
      k: "calls p6 = [(StBuild, None), (StCreate, None), (StStart, None), (StTarball, None),
                       (StDepends, None), (StPackage, Some e5), (StRemove, r6)]"
      and pr: "printed p6 = []"
      by auto
    from rp(2) k have kp: "calls p = calls p6" by (simp split: option.splits)
    with k assms(2) have "e = e5" by auto
    moreover from rp(2) pr have "printed p = (case r6 of None \<Rightarrow> [] | Some x \<Rightarrow> [x])"
      by (simp split: option.splits)
    ultimately show ?thesis using rp(1) k kp by auto
  qed
qed

text \<open>
  Packaging fails while the container is running: Remove is called, fails (the engine
  refuses to remove a running container), its error is printed, and the packaging error
  is returned.
\<close>

theorem run_Package_failure_witness:
  "fst (run (scripted packageFails (New args2)) flags0 eng1)
     = Some (Failure ''command exited with non-zero status'')
   \<and> calls (snd (run (scripted packageFails (New args2)) flags0 eng1)) =
       [(StBuild, None), (StCreate, None), (StStart, None), (StTarball, None),
        (StDepends, None), (StPackage, Some (Failure ''command exited with non-zero status'')),
        (StRemove, Some (External ''cannot remove a running container''))]
   \<and> printed (snd (run (scripted packageFails (New args2)) flags0 eng1)) =
       [External ''cannot remove a running container'']"
proof -
  let ?r = "run (scripted packageFails (New args2)) flags0 eng1"
  have n: "Container (New args2) = ''deber_bookworm_hello_1.0-rc1-deb11u1-2''"
    by (simp add: New_Container args2_def standardizeTarget_eq standardizeVersion_map
        ReplaceAll_absent)
  have rm: "Remove eng1 (New args2) =
              (Failed (External ''cannot remove a running container''), eng1)"
    by (simp add: Remove_def n IsContainerCreated_def ContainerList_def ContainerRemove_def
        hasName_def ContainerStateRunning_def eng1_def)
  have c: "calls (snd ?r) =
       [(StBuild, None), (StCreate, None), (StStart, None), (StTarball, None),
        (StDepends, None), (StPackage, Some (Failure ''command exited with non-zero status'')),
        (StRemove, Some (External ''cannot remove a running container''))]"
    by (simp add: run_def runBefore_def call_def scripted_def packageFails_def flags0_def rm)
  have m: "(StPackage, Some (Failure ''command exited with non-zero status''))
             \<in> set (calls (snd ?r))"
    unfolding c by simp
  have "?r = (fst ?r, snd ?r)" by simp
  from run_Package_failure[OF this m] c show ?thesis by auto
qed


section \<open>Properties of the file system operations\<close>



lemma putEntry_dir [simp]: "(putEntry fs p nd d = None) = (fs d = None)"
  by (auto simp: putEntry_def split: option.splits)

lemma delEntry_dir [simp]: "(delEntry fs p d = None) = (fs d = None)"
  by (auto simp: delEntry_def split: option.splits)

lemma Lstat_dir: "Lstat fs p = Some nd \<Longrightarrow> fs (fst p) \<noteq> None"
  by (auto simp: Lstat_def split: option.splits)






section \<open>Properties of the tarball step\<close>





lemma withoutStale_dir [simp]: "(withoutStale n fs blds d = None) = (fs d = None)"
  by (simp add: withoutStale_def)



















end
